theory Spec2Isabelle
  imports Main
begin

section \<open>The HDF5 image extractor of \<open>extractor.py\<close>\<close>

text \<open>
  The class \<open>H5ImageExtractor\<close> walks the node tree of one HDF5 file twice: \<open>scan_file\<close>
  counts the arrays of rank at least two, \<open>extract_images\<close> reads the first \<open>n\<close> of them
  and hands the list to \<open>numpy.array\<close>. The development models the file as the tree that
  PyTables presents, the object as a record that the public methods pass along, every
  exception as a value of \<open>error\<close>, and every \<open>warnings.warn\<close> as an entry of a list.
  The \<open>print\<close> calls carry no information that the returned values do not, and are left
  out; so is the interactive prompt of \<open>extract_h5_images\<close>.
\<close>

subsection \<open>Arrays, nodes and files\<close>

text \<open>
  The element type of a dataset (a PyTables atom, a NumPy dtype) is one of the numeric
  kinds, with its width in bits. \<open>Array.read()\<close> returns an \<open>ndarray\<close> with the shape and
  the element type of the node; \<open>buffer\<close> lists its elements in row-major order, as
  integers (the samples of an image: a float array holds integral values here).
\<close>

datatype atom = BoolAtom | IntAtom nat | UIntAtom nat | FloatAtom nat

record ndarray =
  shape :: "nat list"
  dtype :: atom
  buffer :: "int list"

text \<open>
  A node is what \<open>_f_iter_nodes\<close> yields. \<open>Array pathname shape atom outcome\<close> is an instance
  of \<open>tables.Array\<close> (or of a subclass), where \<open>outcome\<close> is what \<open>read()\<close> does: \<open>Inl msg\<close> is
  an exception with that message, \<open>Inr buf\<close> the data. \<open>Group children\<close> lists the children
  in the iteration order of PyTables. \<open>Leaf\<close> is any node that is neither an array nor a
  group (a table, a variable-length array, an unsupported dataset). \<open>Unloadable msg\<close> is a
  child that the library cannot load: the iterator raises when it reaches it.
\<close>

datatype node =
    Array string "nat list" atom "string + int list"
  | Group "node list"
  | Leaf
  | Unloadable string

text \<open>What \<open>tables.open_file\<close> does with the path of the extractor.\<close>

datatype h5file = Unopenable string | H5File node

subsection \<open>Exceptions and warnings\<close>

text \<open>
  \<open>NotAFile\<close>, \<open>NoImagesFound\<close>, \<open>RequestedTooMany\<close>, \<open>NotPositive\<close> are the four
  \<open>ValueError\<close>s that the class raises, told apart by their message; \<open>InhomogeneousShape\<close>
  and \<open>CouldNotBroadcast\<close> are the two \<open>ValueError\<close>s of \<open>numpy.array\<close>; \<open>NoIterNodes\<close> is the
  \<open>AttributeError\<close> of calling \<open>_f_iter_nodes\<close> on a node that is not a group;
  \<open>LibraryError\<close> is any exception of PyTables or HDF5.
\<close>

datatype error =
    FileNotFoundError
  | NotAFile
  | NoImagesFound
  | RequestedTooMany int int
  | NotPositive
  | InhomogeneousShape
  | CouldNotBroadcast
  | NoIterNodes
  | LibraryError string

fun is_ValueError :: "error \<Rightarrow> bool" where
  "is_ValueError NotAFile = True"
| "is_ValueError NoImagesFound = True"
| "is_ValueError (RequestedTooMany n k) = True"
| "is_ValueError NotPositive = True"
| "is_ValueError InhomogeneousShape = True"
| "is_ValueError CouldNotBroadcast = True"
| "is_ValueError e = False"

datatype warning =
    NoH5Extension string
  | ErrorReading string error
  | CouldNotRead string error
  | InconsistentShapes

subsection \<open>The extractor object and its constructor\<close>

record extractor =
  file_path :: string
  total_images :: int

text \<open>What \<open>pathlib\<close> reports about the path given to the constructor.\<close>

record path_info =
  path_exists :: bool
  path_is_file :: bool
  path_suffix :: string

definition lower_char :: "char \<Rightarrow> char" where
  "lower_char c =
     (let k = (of_char c :: nat) in if 65 \<le> k \<and> k \<le> 90 then char_of (k + 32) else c)"

definition H5ImageExtractor :: "path_info \<Rightarrow> string \<Rightarrow> error + extractor \<times> warning list" where
  "H5ImageExtractor info path =
     (if \<not> path_exists info then Inl FileNotFoundError
      else if \<not> path_is_file info then Inl NotAFile
      else Inr (\<lparr>file_path = path, total_images = 0\<rparr>,
                if map lower_char (path_suffix info) \<noteq> ''.h5'' then [NoH5Extension path] else []))"

subsection \<open>The counting pass\<close>

text \<open>
  \<open>recursive_count_arrays\<close> is the method \<open>_recursive_count_arrays\<close>; \<open>count_children\<close> is
  its \<open>for\<close> loop over the nodes still to come from the iterator. The pass looks at the
  class and the shape of a child and never reads it.
\<close>

fun recursive_count_arrays :: "node \<Rightarrow> int \<Rightarrow> error + int"
  and count_children :: "node list \<Rightarrow> int \<Rightarrow> error + int" where
  "recursive_count_arrays (Group children) count = count_children children count"
| "recursive_count_arrays (Unloadable msg) count = Inl (LibraryError msg)"
| "recursive_count_arrays (Array p sh a r) count = Inl NoIterNodes"
| "recursive_count_arrays Leaf count = Inl NoIterNodes"
| "count_children [] count = Inr count"
| "count_children (Unloadable msg # rest) count = Inl (LibraryError msg)"
| "count_children (Array p sh a r # rest) count =
     count_children rest (if 2 \<le> length sh then count + 1 else count)"
| "count_children (Group children # rest) count =
     (case recursive_count_arrays (Group children) count of
        Inl e \<Rightarrow> Inl e
      | Inr count' \<Rightarrow> count_children rest count')"
| "count_children (Leaf # rest) count = count_children rest count"

definition count_images_in_file :: "h5file \<Rightarrow> error + int" where
  "count_images_in_file h5 =
     (case h5 of
        Unopenable msg \<Rightarrow> Inl (LibraryError msg)
      | H5File root \<Rightarrow> recursive_count_arrays root 0)"

text \<open>
  \<open>scan_file\<close> returns the updated object, the count and the warnings. Its \<open>except
  Exception\<close> catches whatever the pass raises.
\<close>

definition scan_file :: "extractor \<Rightarrow> h5file \<Rightarrow> extractor \<times> int \<times> warning list" where
  "scan_file self h5 =
     (case count_images_in_file h5 of
        Inr count \<Rightarrow> (self\<lparr>total_images := count\<rparr>, count, [])
      | Inl e \<Rightarrow> (self\<lparr>total_images := 0\<rparr>, 0, [ErrorReading (file_path self) e]))"

subsection \<open>The extracting pass\<close>

text \<open>
  The pass appends to the list \<open>images\<close> in place and warns as it goes; \<open>reads\<close> records the
  path name of every array on which \<open>read()\<close> was called, in order. When an exception
  leaves the pass, the state reached so far leaves with it (\<open>Inl (e, st)\<close>): the warnings
  emitted before the exception stay emitted.
\<close>

record walk_state =
  images :: "ndarray list"
  warnings :: "warning list"
  reads :: "string list"

definition reached :: "int option \<Rightarrow> walk_state \<Rightarrow> bool" where
  "reached max_count st =
     (case max_count of None \<Rightarrow> False | Some m \<Rightarrow> m \<le> int (length (images st)))"

text \<open>\<open>try: images.append(child.read()) except Exception as e: warnings.warn(...)\<close>\<close>

definition read_child :: "string \<Rightarrow> nat list \<Rightarrow> atom \<Rightarrow> string + int list \<Rightarrow> walk_state \<Rightarrow> walk_state" where
  "read_child p sh a r st =
     (case r of
        Inr buf \<Rightarrow> st\<lparr>images := images st @ [\<lparr>shape = sh, dtype = a, buffer = buf\<rparr>],
                      reads := reads st @ [p]\<rparr>
      | Inl msg \<Rightarrow> st\<lparr>warnings := warnings st @ [CouldNotRead p (LibraryError msg)],
                      reads := reads st @ [p]\<rparr>)"

text \<open>
  \<open>recursive_extract_arrays\<close> is \<open>_recursive_extract_arrays\<close>, \<open>extract_children\<close> its loop.
  The iterator loads the next child before the body of the loop tests the bound, so an
  unloadable child raises even when the bound has been reached.
\<close>

fun recursive_extract_arrays ::
    "node \<Rightarrow> int option \<Rightarrow> walk_state \<Rightarrow> error \<times> walk_state + walk_state"
  and extract_children ::
    "node list \<Rightarrow> int option \<Rightarrow> walk_state \<Rightarrow> error \<times> walk_state + walk_state" where
  "recursive_extract_arrays (Group children) max_count st =
     (if reached max_count st then Inr st else extract_children children max_count st)"
| "recursive_extract_arrays (Unloadable msg) max_count st =
     (if reached max_count st then Inr st else Inl (LibraryError msg, st))"
| "recursive_extract_arrays (Array p sh a r) max_count st =
     (if reached max_count st then Inr st else Inl (NoIterNodes, st))"
| "recursive_extract_arrays Leaf max_count st =
     (if reached max_count st then Inr st else Inl (NoIterNodes, st))"
| "extract_children [] max_count st = Inr st"
| "extract_children (Unloadable msg # rest) max_count st = Inl (LibraryError msg, st)"
| "extract_children (Array p sh a r # rest) max_count st =
     (if reached max_count st then Inr st
      else if 2 \<le> length sh then extract_children rest max_count (read_child p sh a r st)
      else extract_children rest max_count st)"
| "extract_children (Group children # rest) max_count st =
     (if reached max_count st then Inr st
      else case recursive_extract_arrays (Group children) max_count st of
             Inl raised \<Rightarrow> Inl raised
           | Inr st' \<Rightarrow> extract_children rest max_count st')"
| "extract_children (Leaf # rest) max_count st =
     (if reached max_count st then Inr st else extract_children rest max_count st)"

definition extract_from_file :: "h5file \<Rightarrow> int option \<Rightarrow> error \<times> walk_state + walk_state" where
  "extract_from_file h5 max_count =
     (case h5 of
        Unopenable msg \<Rightarrow> Inl (LibraryError msg, \<lparr>images = [], warnings = [], reads = []\<rparr>)
      | H5File root \<Rightarrow>
          recursive_extract_arrays root max_count \<lparr>images = [], warnings = [], reads = []\<rparr>)"

subsection \<open>\<open>numpy.array\<close> on a list of arrays\<close>

text \<open>
  The common type of two numeric element types, \<open>numpy.promote_types\<close>, for the widths 8,
  16, 32 and 64 (floats 16, 32 and 64): the wider of two types of one kind; a signed
  integer wide enough for both when an unsigned meets a signed integer, and \<open>float64\<close>
  when there is none; a float wide enough to hold the integer when an integer meets a
  float.
\<close>

definition float_for_int :: "nat \<Rightarrow> nat" where
  "float_for_int w = (if w \<le> 8 then 16 else if w \<le> 16 then 32 else 64)"

definition signed_for :: "nat \<Rightarrow> nat \<Rightarrow> atom" where
  "signed_for s u =
     (if u < s then IntAtom s else if 2 * u \<le> 64 then IntAtom (2 * u) else FloatAtom 64)"

fun result_type :: "atom \<Rightarrow> atom \<Rightarrow> atom" where
  "result_type BoolAtom b = b"
| "result_type a BoolAtom = a"
| "result_type (IntAtom a) (IntAtom b) = IntAtom (max a b)"
| "result_type (UIntAtom a) (UIntAtom b) = UIntAtom (max a b)"
| "result_type (FloatAtom a) (FloatAtom b) = FloatAtom (max a b)"
| "result_type (IntAtom s) (UIntAtom u) = signed_for s u"
| "result_type (UIntAtom u) (IntAtom s) = signed_for s u"
| "result_type (IntAtom w) (FloatAtom f) = FloatAtom (max f (float_for_int w))"
| "result_type (FloatAtom f) (IntAtom w) = FloatAtom (max f (float_for_int w))"
| "result_type (UIntAtom w) (FloatAtom f) = FloatAtom (max f (float_for_int w))"
| "result_type (FloatAtom f) (UIntAtom w) = FloatAtom (max f (float_for_int w))"

text \<open>
  Converting an element to the common type changes its value only when an integer
  becomes a float whose significand is too short for it: the value is rounded to the
  nearest float, ties to even. \<open>bit_length\<close> is the number of binary digits of a natural
  number, \<open>round_to_bits p v\<close> the integer \<open>v\<close> rounded to \<open>p\<close> significant bits.
\<close>

function bit_length :: "nat \<Rightarrow> nat" where
  "bit_length n = (if n = 0 then 0 else Suc (bit_length (n div 2)))"
  by pat_completeness auto
termination
  by (relation "measure id") auto

declare bit_length.simps [simp del]

definition round_to_bits :: "nat \<Rightarrow> int \<Rightarrow> int" where
  "round_to_bits p v =
     (let a = nat \<bar>v\<bar>; n = bit_length a
      in if n \<le> p then v
         else let s = n - p; q = a div 2 ^ s; r = a mod 2 ^ s; half = 2 ^ (s - 1);
                  q' = (if half < r \<or> (r = half \<and> odd q) then q + 1 else q)
              in sgn v * int (q' * 2 ^ s))"

definition significand_bits :: "nat \<Rightarrow> nat" where
  "significand_bits w = (if w \<le> 16 then 11 else if w \<le> 32 then 24 else if w \<le> 64 then 53 else 64)"

fun convert :: "atom \<Rightarrow> atom \<Rightarrow> int \<Rightarrow> int" where
  "convert (IntAtom w) (FloatAtom f) v = round_to_bits (significand_bits f) v"
| "convert (UIntAtom w) (FloatAtom f) v = round_to_bits (significand_bits f) v"
| "convert a b v = v"

text \<open>\<open>astype d x\<close> is the array \<open>x\<close> with its elements converted to the type \<open>d\<close>.\<close>

definition astype :: "atom \<Rightarrow> ndarray \<Rightarrow> ndarray" where
  "astype d x = x\<lparr>dtype := d, buffer := map (convert (dtype x) d) (buffer x)\<rparr>"

text \<open>
  NumPy finds the element type of the result by going through the arrays in order and
  promoting the type found so far with the type of the next array.
\<close>

fun common_type :: "ndarray list \<Rightarrow> atom" where
  "common_type [] = FloatAtom 64"
| "common_type (x # xs) = foldl result_type (dtype x) (map dtype xs)"

text \<open>
  \<open>Stacked sh d xs\<close> is one array of shape \<open>sh\<close> and element type \<open>d\<close> whose slices along the
  first axis are \<open>xs\<close>, each of element type \<open>d\<close>. \<open>ObjectArray sh xs\<close> is an array of element
  type \<open>object\<close> and shape \<open>sh\<close> built from \<open>xs\<close>: when \<open>sh = [length xs]\<close> its elements are
  the arrays \<open>xs\<close> themselves, as they were read.

  \<open>np_array\<close> is \<open>numpy.array(images)\<close> of NumPy 1.24 and later. Arrays of one shape are
  stacked along a new first axis, their elements converted to the common type; arrays
  of different shapes raise \<open>ValueError\<close> (inhomogeneous shape); the empty list gives an
  empty array of shape \<open>(0,)\<close>.

  \<open>np_array_object\<close> is \<open>numpy.array(images, dtype=object)\<close>. NumPy takes as shape of the
  result the length of the list followed by the leading dimensions on which all arrays
  agree (\<open>discovered_shape\<close>), and then copies each array into its slot, broadcasting it
  to the shape of the slot; where that is impossible it raises \<open>ValueError\<close> (could not
  broadcast input array). Only when the arrays disagree on their first dimension is
  the slot a single object, which holds the array as it is.
\<close>

datatype container =
    Stacked "nat list" atom "ndarray list"
  | ObjectArray "nat list" "ndarray list"

fun common_prefix :: "nat list \<Rightarrow> nat list \<Rightarrow> nat list" where
  "common_prefix (x # xs) (y # ys) = (if x = y then x # common_prefix xs ys else [])"
| "common_prefix xs ys = []"

fun discovered_shape :: "ndarray list \<Rightarrow> nat list" where
  "discovered_shape [] = []"
| "discovered_shape (x # xs) = foldl common_prefix (shape x) (map shape xs)"

fun strip_unit :: "nat \<Rightarrow> nat list \<Rightarrow> nat list" where
  "strip_unit k [] = []"
| "strip_unit k (d # ds) = (if k < length (d # ds) \<and> d = 1 then strip_unit k ds else d # ds)"

definition broadcastable :: "nat list \<Rightarrow> nat list \<Rightarrow> bool" where
  "broadcastable src dst =
     (let s = strip_unit (length dst) src
      in length s \<le> length dst \<and>
         list_all2 (\<lambda>d q. d = q \<or> d = 1) s (drop (length dst - length s) dst))"

definition same_shape :: "ndarray list \<Rightarrow> bool" where
  "same_shape xs = (case xs of [] \<Rightarrow> True | x # ys \<Rightarrow> list_all (\<lambda>y. shape y = shape x) ys)"

definition np_array :: "ndarray list \<Rightarrow> error + container" where
  "np_array xs =
     (case xs of
        [] \<Rightarrow> Inr (Stacked [0] (FloatAtom 64) [])
      | x # ys \<Rightarrow>
          if same_shape xs
          then Inr (Stacked (length xs # shape x) (common_type xs) (map (astype (common_type xs)) xs))
          else Inl InhomogeneousShape)"

definition np_array_object :: "ndarray list \<Rightarrow> error + container" where
  "np_array_object xs =
     (case xs of
        [] \<Rightarrow> Inr (ObjectArray [0] [])
      | x # ys \<Rightarrow>
          if same_shape xs then Inr (ObjectArray (length xs # shape x) xs)
          else let slot = discovered_shape xs
               in if slot = [] then Inr (ObjectArray [length xs] xs)
                  else if list_all (\<lambda>y. broadcastable (shape y) slot) xs
                  then Inr (ObjectArray (length xs # slot) xs)
                  else Inl CouldNotBroadcast)"

subsection \<open>\<open>extract_images\<close>\<close>

text \<open>
  \<open>assemble\<close> is the last statement of \<open>extract_images\<close>: the \<open>try\<close> around
  \<open>np.array(images)\<close> with its \<open>except ValueError\<close>. It takes the warnings emitted so far
  and returns what the statement returns or raises, with the warnings emitted by then:
  the handler warns before it calls \<open>np.array(images, dtype=object)\<close>, so the warning is
  there also when that call raises.
\<close>

definition assemble :: "ndarray list \<Rightarrow> warning list \<Rightarrow> (error + container) \<times> warning list" where
  "assemble imgs ws =
     (case np_array imgs of
        Inr result \<Rightarrow> (Inr result, ws)
      | Inl e \<Rightarrow>
          if is_ValueError e then (np_array_object imgs, ws @ [InconsistentShapes])
          else (Inl e, ws))"

text \<open>
  \<open>extract_images\<close> returns what the call returns or raises, what the call did until then
  (the list of images it held, the warnings it emitted, the arrays it read), and the
  object after the call.
\<close>

definition extract_images ::
  "extractor \<Rightarrow> h5file \<Rightarrow> int option \<Rightarrow> (error + container) \<times> walk_state \<times> extractor" where
  "extract_images self h5 n_images =
     (if total_images self = 0
      then (Inl NoImagesFound, \<lparr>images = [], warnings = [], reads = []\<rparr>, self)
      else let n = (case n_images of None \<Rightarrow> total_images self | Some k \<Rightarrow> k)
           in if total_images self < n
              then (Inl (RequestedTooMany n (total_images self)),
                    \<lparr>images = [], warnings = [], reads = []\<rparr>, self)
              else if n \<le> 0
              then (Inl NotPositive, \<lparr>images = [], warnings = [], reads = []\<rparr>, self)
              else (case extract_from_file h5 (Some n) of
                      Inl (e, st) \<Rightarrow> (Inl e, st, self)
                    | Inr st \<Rightarrow>
                        (case assemble (images st) (warnings st) of
                           (result, ws) \<Rightarrow> (result, st\<lparr>warnings := ws\<rparr>, self))))"

definition get_summary :: "extractor \<Rightarrow> string \<times> int" where
  "get_summary self = (file_path self, total_images self)"

subsection \<open>The vocabulary of the specification\<close>

text \<open>
  \<open>nodes_below root\<close> lists every node under \<open>root\<close>, at any depth, parents before
  children and siblings in iteration order (depth first). An image candidate is an
  array node of rank at least two; \<open>candidates root\<close> are the candidates in that order.
\<close>

fun nodes_below :: "node \<Rightarrow> node list"
  and nodes_in :: "node list \<Rightarrow> node list" where
  "nodes_below (Group children) = nodes_in children"
| "nodes_below (Array p sh a r) = []"
| "nodes_below Leaf = []"
| "nodes_below (Unloadable msg) = []"
| "nodes_in [] = []"
| "nodes_in (child # rest) = child # nodes_below child @ nodes_in rest"

fun is_image :: "node \<Rightarrow> bool" where
  "is_image (Array p sh a r) = (2 \<le> length sh)"
| "is_image other = False"

fun is_group :: "node \<Rightarrow> bool" where
  "is_group (Group children) = True"
| "is_group other = False"

fun is_unloadable :: "node \<Rightarrow> bool" where
  "is_unloadable (Unloadable msg) = True"
| "is_unloadable other = False"

definition candidates :: "node \<Rightarrow> node list" where
  "candidates root = filter is_image (nodes_below root)"

text \<open>A root is loadable when it is a group and the iterator raises nowhere below it.\<close>

definition loadable :: "node \<Rightarrow> bool" where
  "loadable root = (is_group root \<and> list_all (\<lambda>n. \<not> is_unloadable n) (nodes_below root))"

text \<open>
  What \<open>read()\<close> returns on a node, the path name of a node, and the warning that the
  extracting pass emits for a node that cannot be read.
\<close>

fun read_of :: "node \<Rightarrow> ndarray option" where
  "read_of (Array p sh a (Inr buf)) = Some \<lparr>shape = sh, dtype = a, buffer = buf\<rparr>"
| "read_of other = None"

fun pathname :: "node \<Rightarrow> string" where
  "pathname (Array p sh a r) = p"
| "pathname other = []"

fun warning_of :: "node \<Rightarrow> warning list" where
  "warning_of (Array p sh a (Inl msg)) = [CouldNotRead p (LibraryError msg)]"
| "warning_of other = []"

definition readable :: "node \<Rightarrow> bool" where
  "readable n = (read_of n \<noteq> None)"

text \<open>
  The extracting pass written over the flat list of candidates: each candidate is
  visited in turn until the bound is reached.
\<close>

fun visit :: "node \<Rightarrow> walk_state \<Rightarrow> walk_state" where
  "visit (Array p sh a r) st = read_child p sh a r st"
| "visit other st = st"

fun walk :: "node list \<Rightarrow> int option \<Rightarrow> walk_state \<Rightarrow> walk_state" where
  "walk [] mc st = st"
| "walk (c # cs) mc st = (if reached mc st then st else walk cs mc (visit c st))"

definition differ_in_first_dimension :: "ndarray list \<Rightarrow> bool" where
  "differ_in_first_dimension xs =
     (\<exists>x\<in>set xs. \<exists>y\<in>set xs. take 1 (shape x) \<noteq> take 1 (shape y))"

text \<open>
  The arrays that make up a container along its first axis, and what a call of
  \<open>extract_images\<close> did.
\<close>

fun slices :: "container \<Rightarrow> ndarray list" where
  "slices (Stacked sh d xs) = xs"
| "slices (ObjectArray sh xs) = xs"


definition trace :: "(error + container) \<times> walk_state \<times> extractor \<Rightarrow> walk_state" where
  "trace r = fst (snd r)"

text \<open>The three errors of the argument checks of \<open>extract_images\<close>.\<close>

fun precondition_error :: "error \<Rightarrow> bool" where
  "precondition_error NoImagesFound = True"
| "precondition_error (RequestedTooMany n k) = True"
| "precondition_error NotPositive = True"
| "precondition_error e = False"

subsection \<open>Example files\<close>

text \<open>
  \<open>example_tree\<close>: groups \<open>/a\<close> and \<open>/a/b\<close> with one array of shape \<open>(10, 10)\<close> each, and \<open>/c\<close>
  with an array of shape \<open>(5,)\<close>. The other trees hold arrays of one shape and two element
  types, of shapes \<open>(4, 4)\<close> and \<open>(4, 5)\<close>, of shapes \<open>(4, 4)\<close> and \<open>(5, 4)\<close>, an array that
  cannot be read among readable ones, a child that cannot be loaded, an \<open>int64\<close> array
  holding \<open>2^53 + 1\<close> beside a \<open>float64\<close> array, an array that cannot be read before arrays
  of shapes \<open>(4, 4)\<close> and \<open>(4, 5)\<close>, and a file with a vector only.
\<close>

definition example_extractor :: extractor where
  "example_extractor = \<lparr>file_path = ''example_file.h5'', total_images = 0\<rparr>"

definition example_tree :: node where
  "example_tree =
     Group [Group [Array ''/a/img'' [10, 10] (FloatAtom 64) (Inr [1]),
                   Group [Array ''/a/b/img'' [10, 10] (FloatAtom 64) (Inr [2])]],
            Group [Array ''/c/vec'' [5] (FloatAtom 64) (Inr [3])]]"

definition mixed_type_tree :: node where
  "mixed_type_tree =
     Group [Array ''/i'' [2, 2] (IntAtom 32) (Inr [1, 2, 3, 4]),
            Array ''/f'' [2, 2] (FloatAtom 64) (Inr [5, 6, 7, 8])]"

definition same_height_tree :: node where
  "same_height_tree =
     Group [Array ''/p'' [4, 4] (UIntAtom 8) (Inr [1]),
            Array ''/q'' [4, 5] (UIntAtom 8) (Inr [2])]"

definition other_height_tree :: node where
  "other_height_tree =
     Group [Array ''/p'' [4, 4] (UIntAtom 8) (Inr [1]),
            Array ''/q'' [5, 4] (UIntAtom 8) (Inr [2])]"

definition corrupt_tree :: node where
  "corrupt_tree =
     Group [Array ''/u'' [3, 3] (UIntAtom 16) (Inl ''corrupt''),
            Group [Array ''/g/v'' [3, 3] (UIntAtom 16) (Inr [1])],
            Array ''/w'' [3, 3] (UIntAtom 16) (Inr [2])]"

definition unloadable_tree :: node where
  "unloadable_tree =
     Group [Unloadable ''bad object header'',
            Array ''/v'' [3, 3] (UIntAtom 16) (Inr [1])]"





section \<open>Properties\<close>

subsection \<open>The two passes over a loadable tree\<close>

lemma count_children_loadable:
  "(\<forall>cs. nd = Group cs \<longrightarrow> list_all (\<lambda>n. \<not> is_unloadable n) (nodes_in cs) \<longrightarrow>
      recursive_count_arrays nd c = Inr (c + int (length (filter is_image (nodes_in cs)))))"
  "list_all (\<lambda>n. \<not> is_unloadable n) (nodes_in ns) \<Longrightarrow>
      count_children ns c = Inr (c + int (length (filter is_image (nodes_in ns))))"
  by (induction nd c and ns c rule: recursive_count_arrays_count_children.induct) auto

lemma count_loadable:
  assumes "loadable root"
  shows "count_images_in_file (H5File root) = Inr (int (length (candidates root)))"
proof -
  from assms obtain cs where root: "root = Group cs"
    by (cases root) (auto simp: loadable_def)
  with assms have "list_all (\<lambda>n. \<not> is_unloadable n) (nodes_in cs)"
    by (simp add: loadable_def)
  with count_children_loadable(2) [of cs 0] root show ?thesis
    by (simp add: count_images_in_file_def candidates_def)
qed

lemma scan_loadable:
  assumes "loadable root"
  shows "scan_file self (H5File root) =
           (self\<lparr>total_images := int (length (candidates root))\<rparr>,
            int (length (candidates root)), [])"
  by (simp add: scan_file_def count_loadable [OF assms])

lemma walk_reached: "reached mc st \<Longrightarrow> walk cs mc st = st"
  by (cases cs) auto

lemma walk_append: "walk (xs @ ys) mc st = walk ys mc (walk xs mc st)"
  by (induction xs arbitrary: st) (auto simp: walk_reached)

lemma extract_children_loadable:
  "(\<forall>cs. nd = Group cs \<longrightarrow> list_all (\<lambda>n. \<not> is_unloadable n) (nodes_in cs) \<longrightarrow>
      recursive_extract_arrays nd mc st = Inr (walk (filter is_image (nodes_in cs)) mc st))"
  "list_all (\<lambda>n. \<not> is_unloadable n) (nodes_in ns) \<Longrightarrow>
      extract_children ns mc st = Inr (walk (filter is_image (nodes_in ns)) mc st)"
  by (induction nd mc st and ns mc st rule: recursive_extract_arrays_extract_children.induct)
     (auto simp: walk_reached walk_append)

lemma extract_loadable:
  assumes "loadable root"
  shows "extract_from_file (H5File root) mc =
           Inr (walk (candidates root) mc \<lparr>images = [], warnings = [], reads = []\<rparr>)"
proof -
  from assms obtain cs where root: "root = Group cs"
    by (cases root) (auto simp: loadable_def)
  with assms have "list_all (\<lambda>n. \<not> is_unloadable n) (nodes_in cs)"
    by (simp add: loadable_def)
  with extract_children_loadable(1) [of root mc] root show ?thesis
    by (simp add: extract_from_file_def candidates_def)
qed

text \<open>
  C1. On every file whose tree loads, \<open>scan_file\<close> returns the number of array nodes of
  rank at least two found at any depth, stores that number in \<open>total_images\<close> and warns
  of nothing; every node it counts is an array of rank at least two.
\<close>

theorem scan_file_counts_candidates:
  assumes "loadable root"
  shows "scan_file self (H5File root) =
           (self\<lparr>total_images := int (length (filter is_image (nodes_below root)))\<rparr>,
            int (length (filter is_image (nodes_below root))), []) \<and>
         (\<forall>n\<in>set (filter is_image (nodes_below root)).
            \<exists>p sh a r. n = Array p sh a r \<and> 2 \<le> length sh)"
proof
  show "scan_file self (H5File root) =
           (self\<lparr>total_images := int (length (filter is_image (nodes_below root)))\<rparr>,
            int (length (filter is_image (nodes_below root))), [])"
    using scan_loadable [OF assms, of self] by (simp add: candidates_def)
  show "\<forall>n\<in>set (filter is_image (nodes_below root)).
            \<exists>p sh a r. n = Array p sh a r \<and> 2 \<le> length sh"
  proof
    fix n assume "n \<in> set (filter is_image (nodes_below root))"
    then have "is_image n" by simp
    then show "\<exists>p sh a r. n = Array p sh a r \<and> 2 \<le> length sh"
      by (cases n) auto
  qed
qed

theorem scan_file_counts_candidates_witness:
  "loadable example_tree \<and>
   scan_file example_extractor (H5File example_tree) =
     (example_extractor\<lparr>total_images := 2\<rparr>, 2, [])"
  using scan_file_counts_candidates [of example_tree example_extractor]
  by (simp add: loadable_def example_tree_def)

subsection \<open>The extracting pass over the list of candidates\<close>

lemma images_read_child:
  "images (read_child p sh a r st) =
     images st @ (case read_of (Array p sh a r) of None \<Rightarrow> [] | Some x \<Rightarrow> [x])"
  by (cases r) (auto simp: read_child_def)

lemma images_visit:
  "images (visit c st) = images st @ (case read_of c of None \<Rightarrow> [] | Some x \<Rightarrow> [x])"
  by (cases c) (auto simp: images_read_child)

lemma walk_images:
  "images (walk cs (Some m) st) =
     images st @ take (nat (m - int (length (images st)))) (List.map_filter read_of cs)"
proof (induction cs arbitrary: st)
  case Nil
  then show ?case by simp
next
  case (Cons c cs)
  show ?case
  proof (cases "reached (Some m) st")
    case True
    then show ?thesis by (simp add: reached_def)
  next
    case False
    then have lt: "int (length (images st)) < m" by (simp add: reached_def)
    show ?thesis
    proof (cases "read_of c")
      case None
      with False Cons.IH [of "visit c st"] show ?thesis
        by (simp add: images_visit)
    next
      case (Some x)
      have "nat (m - int (length (images st))) = Suc (nat (m - (1 + int (length (images st)))))"
        using lt by simp
      with False Some Cons.IH [of "visit c st"] show ?thesis
        by (simp add: images_visit)
    qed
  qed
qed

lemma visit_image:
  "is_image c \<Longrightarrow> visit c st =
     st\<lparr>images := images st @ (case read_of c of None \<Rightarrow> [] | Some x \<Rightarrow> [x]),
        warnings := warnings st @ warning_of c,
        reads := reads st @ [pathname c]\<rparr>"
proof (cases c)
  case (Array p sh a r)
  then show ?thesis by (cases r) (auto simp: read_child_def)
qed auto

lemma walk_prefix:
  "list_all is_image cs \<Longrightarrow>
     \<exists>k\<le>length cs.
        images (walk cs mc st) = images st @ List.map_filter read_of (take k cs) \<and>
        warnings (walk cs mc st) = warnings st @ concat (map warning_of (take k cs)) \<and>
        reads (walk cs mc st) = reads st @ map pathname (take k cs) \<and>
        (k < length cs \<longrightarrow> reached mc (walk cs mc st))"
proof (induction cs arbitrary: st)
  case Nil
  then show ?case by simp
next
  case (Cons c cs)
  show ?case
  proof (cases "reached mc st")
    case True
    then show ?thesis by (intro exI [of _ 0]) simp
  next
    case False
    from Cons.prems have c: "is_image c" and cs: "list_all is_image cs" by simp_all
    from Cons.IH [OF cs, of "visit c st"] obtain k where k: "k \<le> length cs"
      "images (walk cs mc (visit c st)) = images (visit c st) @ List.map_filter read_of (take k cs)"
      "warnings (walk cs mc (visit c st)) = warnings (visit c st) @ concat (map warning_of (take k cs))"
      "reads (walk cs mc (visit c st)) = reads (visit c st) @ map pathname (take k cs)"
      "k < length cs \<longrightarrow> reached mc (walk cs mc (visit c st))"
      by blast
    show ?thesis
      using False k
      by (intro exI [of _ "Suc k"]) (auto simp: visit_image [OF c] split: option.splits)
  qed
qed







lemma list_all_candidates: "list_all is_image (candidates root)"
  by (simp add: candidates_def list_all_iff)


lemma extract_images_in_range:
  assumes "1 \<le> n" and "n \<le> total_images self"
    and "extract_from_file h5 (Some n) = Inr st"
  shows "extract_images self h5 (Some n) =
           (fst (assemble (images st) (warnings st)),
            st\<lparr>warnings := snd (assemble (images st) (warnings st))\<rparr>, self)"
  using assms by (simp add: extract_images_def split: prod.splits)



subsection \<open>Assembling the result\<close>

lemma same_shape_iff:
  "same_shape xs \<longleftrightarrow> (\<forall>x\<in>set xs. \<forall>y\<in>set xs. shape x = shape y)"
  by (cases xs) (auto simp: same_shape_def list_all_iff)

lemma result_type_same: "result_type a a = a"
  by (cases a) simp_all

lemma foldl_result_type_same:
  "\<forall>a\<in>set as. a = d \<Longrightarrow> foldl result_type d as = d"
  by (induction as) (simp_all add: result_type_same)

lemma common_type_uniform:
  assumes "xs \<noteq> []" and "\<forall>x\<in>set xs. dtype x = d"
  shows "common_type xs = d"
proof -
  from assms(1) obtain x ys where xs: "xs = x # ys" by (cases xs) auto
  with assms(2) have "dtype x = d" and "\<forall>a\<in>set (map dtype ys). a = d" by auto
  then show ?thesis unfolding xs by (simp add: foldl_result_type_same)
qed

lemma convert_same: "convert a a v = v"
  by (cases a) simp_all

lemma map_convert_same: "map (convert a a) vs = vs"
  by (induction vs) (simp_all add: convert_same)

lemma astype_same: "dtype x = d \<Longrightarrow> astype d x = x"
  by (auto simp: astype_def map_convert_same)

lemma map_astype_uniform: "\<forall>x\<in>set xs. dtype x = d \<Longrightarrow> map (astype d) xs = xs"
  by (induction xs) (simp_all add: astype_same)

lemma length_slices_np_array: "np_array xs = Inr c \<Longrightarrow> length (slices c) = length xs"
  by (cases xs) (auto simp: np_array_def split: if_splits)

lemma assemble_same_shape:
  "same_shape xs \<Longrightarrow>
     assemble xs ws =
       (Inr (Stacked (case xs of [] \<Rightarrow> [0] | x # ys \<Rightarrow> length xs # shape x)
               (common_type xs) (map (astype (common_type xs)) xs)), ws)"
  by (cases xs) (simp_all add: assemble_def np_array_def)

lemma assemble_other_shapes:
  "\<not> same_shape xs \<Longrightarrow> assemble xs ws = (np_array_object xs, ws @ [InconsistentShapes])"
  by (cases xs) (simp_all add: assemble_def np_array_def same_shape_def)

lemma np_array_object_result:
  "np_array_object xs = Inr c \<Longrightarrow> \<exists>sh. c = ObjectArray sh xs"
  by (cases xs) (auto simp: np_array_object_def Let_def split: if_splits)

lemma np_array_object_error:
  "np_array_object xs = Inl e \<Longrightarrow> e = CouldNotBroadcast"
  by (cases xs) (auto simp: np_array_object_def Let_def split: if_splits)

lemma assemble_errors: "fst (assemble imgs ws) = Inl e \<Longrightarrow> e = CouldNotBroadcast"
proof (cases "same_shape imgs")
  case True
  assume "fst (assemble imgs ws) = Inl e"
  with assemble_same_shape [OF True, of ws] show ?thesis by simp
next
  case False
  assume "fst (assemble imgs ws) = Inl e"
  with assemble_other_shapes [OF False, of ws] show ?thesis
    by (simp add: np_array_object_error)
qed

lemma foldl_common_prefix:
  "foldl common_prefix p ss \<noteq> [] \<Longrightarrow> p \<noteq> [] \<and> (\<forall>s\<in>set ss. take 1 s = take 1 p)"
proof (induction ss arbitrary: p)
  case Nil
  then show ?case by simp
next
  case (Cons s ss)
  from Cons.IH [of "common_prefix p s"] Cons.prems
  have ne: "common_prefix p s \<noteq> []"
    and rest: "\<forall>t\<in>set ss. take 1 t = take 1 (common_prefix p s)"
    by simp_all
  from ne obtain x p' s' where ps: "p = x # p'" "s = x # s'"
    by (cases p; cases s) (auto split: if_splits)
  with rest show ?case by simp
qed

lemma discovered_shape_differ:
  assumes "differ_in_first_dimension xs"
  shows "discovered_shape xs = []"
proof (rule ccontr)
  assume ne: "discovered_shape xs \<noteq> []"
  then obtain x ys where xs: "xs = x # ys" by (cases xs) auto
  with ne foldl_common_prefix [of "shape x" "map shape ys"]
  have "\<forall>y\<in>set ys. take 1 (shape y) = take 1 (shape x)" by simp
  then have "\<forall>a\<in>set xs. take 1 (shape a) = take 1 (shape x)" by (simp add: xs)
  with assms show False by (auto simp: differ_in_first_dimension_def)
qed

lemma differ_not_same_shape:
  assumes "differ_in_first_dimension xs"
  shows "\<not> same_shape xs"
proof -
  from assms obtain x y where xy: "x \<in> set xs" "y \<in> set xs"
    "take 1 (shape x) \<noteq> take 1 (shape y)"
    by (auto simp: differ_in_first_dimension_def)
  then have "shape x \<noteq> shape y" by auto
  with xy(1,2) show ?thesis unfolding same_shape_iff by blast
qed

lemma stacked_iff_same_shape:
  "(\<exists>sh d xs. fst (assemble imgs ws) = Inr (Stacked sh d xs)) \<longleftrightarrow> same_shape imgs"
proof (cases "same_shape imgs")
  case True
  from assemble_same_shape [OF True, of ws] True show ?thesis by simp
next
  case False
  have "fst (assemble imgs ws) \<noteq> Inr (Stacked sh d xs)" for sh d xs
  proof (cases "np_array_object imgs")
    case (Inl e)
    then show ?thesis by (simp add: assemble_other_shapes [OF False])
  next
    case (Inr c)
    with np_array_object_result [OF Inr] show ?thesis
      by (auto simp: assemble_other_shapes [OF False])
  qed
  with False show ?thesis by blast
qed

lemma stacked_shape:
  assumes "imgs \<noteq> []" and "\<forall>x\<in>set imgs. shape x = [a, b]"
  shows "assemble imgs ws =
           (Inr (Stacked [length imgs, a, b] (common_type imgs)
                   (map (astype (common_type imgs)) imgs)), ws)"
proof -
  from assms obtain x ys where xs: "imgs = x # ys" by (cases imgs) auto
  from assms(2) have "same_shape imgs" unfolding same_shape_iff by simp
  from assemble_same_shape [OF this, of ws] assms(2) show ?thesis
    unfolding xs by simp
qed

lemma assemble_uniform:
  assumes "imgs \<noteq> []" and "\<forall>x\<in>set imgs. shape x = sh \<and> dtype x = d"
  shows "assemble imgs ws = (Inr (Stacked (length imgs # sh) d imgs), ws)"
proof -
  from assms obtain x ys where xs: "imgs = x # ys" by (cases imgs) auto
  from assms(2) have same: "same_shape imgs" unfolding same_shape_iff by simp
  from assms have ct: "common_type imgs = d" by (simp add: common_type_uniform)
  from assms(2) have "map (astype d) imgs = imgs" by (simp add: map_astype_uniform)
  with assemble_same_shape [OF same, of ws] ct assms(2) show ?thesis
    unfolding xs by simp
qed

lemma other_shapes_result:
  assumes "\<not> same_shape imgs"
  shows "snd (assemble imgs ws) = ws @ [InconsistentShapes] \<and>
         (\<forall>c. fst (assemble imgs ws) = Inr c \<longrightarrow> (\<exists>sh. c = ObjectArray sh imgs))"
  using assms by (auto simp: assemble_other_shapes dest: np_array_object_result)

lemma differ_result:
  assumes d: "differ_in_first_dimension imgs"
  shows "assemble imgs ws = (Inr (ObjectArray [length imgs] imgs), ws @ [InconsistentShapes])"
proof -
  from d have ns: "\<not> same_shape imgs" by (rule differ_not_same_shape)
  then obtain x ys where xs: "imgs = x # ys" by (cases imgs) (auto simp: same_shape_def)
  have "np_array_object imgs = Inr (ObjectArray [length imgs] imgs)"
    using ns discovered_shape_differ [OF d] unfolding xs
    by (simp add: np_array_object_def)
  with ns show ?thesis
    by (simp add: assemble_other_shapes)
qed


lemma bit_length_le: "n < 2 ^ p \<Longrightarrow> bit_length n \<le> p"
proof (induction p arbitrary: n)
  case 0
  then show ?case by (simp add: bit_length.simps)
next
  case (Suc p)
  then have "n div 2 < 2 ^ p" by simp
  from Suc.IH [OF this] show ?case by (subst bit_length.simps) simp
qed


lemma round_to_bits_exact: "\<bar>v\<bar> < 2 ^ p \<Longrightarrow> round_to_bits p v = v"
proof -
  assume "\<bar>v\<bar> < 2 ^ p"
  then have "nat \<bar>v\<bar> < 2 ^ p"
    by (metis nat_less_iff abs_ge_zero of_nat_numeral of_nat_power)
  then have "bit_length (nat \<bar>v\<bar>) \<le> p" by (rule bit_length_le)
  then show ?thesis by (simp add: round_to_bits_def)
qed


text \<open>
  C3 (as amended). \<open>extract_images\<close> stacks the extracted arrays into one array exactly
  when they all have the same shape, whatever their element types: the stack has
  their common element type, its slices are the arrays converted to that type, and no
  warning is emitted; \<open>K\<close> arrays of shape \<open>(a, b)\<close> give an array of shape \<open>(K, a, b)\<close>, and
  arrays of one element type are stacked as they were read. When the shapes differ,
  the warning "Images have inconsistent shapes" is emitted, whether the call then
  returns or raises, and a result that is returned is an object array built from the
  same arrays; when the arrays moreover differ in their first dimension the call
  returns the sequence of the \<open>K\<close> arrays, each as it was read.
\<close>

theorem assemble_by_shape:
  "((\<exists>sh d xs. fst (assemble imgs ws) = Inr (Stacked sh d xs)) \<longleftrightarrow>
      (\<forall>x\<in>set imgs. \<forall>y\<in>set imgs. shape x = shape y)) \<and>
   ((\<forall>x\<in>set imgs. \<forall>y\<in>set imgs. shape x = shape y) \<longrightarrow>
      snd (assemble imgs ws) = ws) \<and>
   (imgs \<noteq> [] \<and> (\<forall>x\<in>set imgs. shape x = [a, b]) \<longrightarrow>
      assemble imgs ws =
        (Inr (Stacked [length imgs, a, b] (common_type imgs)
                (map (astype (common_type imgs)) imgs)), ws)) \<and>
   (imgs \<noteq> [] \<and> (\<forall>x\<in>set imgs. shape x = [a, b] \<and> dtype x = d) \<longrightarrow>
      assemble imgs ws = (Inr (Stacked [length imgs, a, b] d imgs), ws)) \<and>
   (\<not> (\<forall>x\<in>set imgs. \<forall>y\<in>set imgs. shape x = shape y) \<longrightarrow>
      snd (assemble imgs ws) = ws @ [InconsistentShapes] \<and>
      (\<forall>c. fst (assemble imgs ws) = Inr c \<longrightarrow> (\<exists>sh. c = ObjectArray sh imgs))) \<and>
   (differ_in_first_dimension imgs \<longrightarrow>
      assemble imgs ws = (Inr (ObjectArray [length imgs] imgs), ws @ [InconsistentShapes])) \<and>
   (1 \<le> n \<and> n \<le> total_images self \<and> extract_from_file h5 (Some n) = Inr st \<longrightarrow>
      fst (extract_images self h5 (Some n)) = fst (assemble (images st) (warnings st)) \<and>
      warnings (trace (extract_images self h5 (Some n))) =
        snd (assemble (images st) (warnings st)))"
proof -
  have same: "same_shape imgs \<longleftrightarrow> (\<forall>x\<in>set imgs. \<forall>y\<in>set imgs. shape x = shape y)"
    by (rule same_shape_iff)
  have quiet: "snd (assemble imgs ws) = ws" if "same_shape imgs"
    using assemble_same_shape [OF that, of ws] by simp
  have bridge: "fst (extract_images self h5 (Some n)) = fst (assemble (images st) (warnings st)) \<and>
      warnings (trace (extract_images self h5 (Some n))) =
        snd (assemble (images st) (warnings st))"
    if "1 \<le> n \<and> n \<le> total_images self \<and> extract_from_file h5 (Some n) = Inr st"
    using that extract_images_in_range [of n self h5 st] by (simp add: trace_def)
  show ?thesis
    unfolding same [symmetric]
    using stacked_iff_same_shape [of imgs ws] quiet stacked_shape [of imgs a b ws]
      assemble_uniform [of imgs "[a, b]" d ws]
      other_shapes_result [of imgs ws] differ_result [of imgs ws] bridge
    by blast
qed

theorem assemble_by_shape_witness:
  "assemble [\<lparr>shape = [4, 4], dtype = UIntAtom 8, buffer = [1]\<rparr>,
             \<lparr>shape = [5, 4], dtype = UIntAtom 8, buffer = [2]\<rparr>] [] =
     (Inr (ObjectArray [2]
            [\<lparr>shape = [4, 4], dtype = UIntAtom 8, buffer = [1]\<rparr>,
             \<lparr>shape = [5, 4], dtype = UIntAtom 8, buffer = [2]\<rparr>]), [InconsistentShapes]) \<and>
   assemble [\<lparr>shape = [10, 10], dtype = FloatAtom 64, buffer = [1]\<rparr>,
             \<lparr>shape = [10, 10], dtype = FloatAtom 64, buffer = [2]\<rparr>] [] =
     (Inr (Stacked [2, 10, 10] (FloatAtom 64)
            [\<lparr>shape = [10, 10], dtype = FloatAtom 64, buffer = [1]\<rparr>,
             \<lparr>shape = [10, 10], dtype = FloatAtom 64, buffer = [2]\<rparr>]), []) \<and>
   snd (assemble [\<lparr>shape = [4, 4], dtype = UIntAtom 8, buffer = [1]\<rparr>,
                  \<lparr>shape = [4, 5], dtype = UIntAtom 8, buffer = [2]\<rparr>] []) =
     [InconsistentShapes]"
proof -
  let ?A = "[\<lparr>shape = [4, 4], dtype = UIntAtom 8, buffer = [1]\<rparr>,
             \<lparr>shape = [5, 4], dtype = UIntAtom 8, buffer = [2]\<rparr>]"
  let ?B = "[\<lparr>shape = [10, 10], dtype = FloatAtom 64, buffer = [1]\<rparr>,
             \<lparr>shape = [10, 10], dtype = FloatAtom 64, buffer = [2]\<rparr>]"
  let ?C = "[\<lparr>shape = [4, 4], dtype = UIntAtom 8, buffer = [1]\<rparr>,
             \<lparr>shape = [4, 5], dtype = UIntAtom 8, buffer = [2]\<rparr>]"
  have d: "differ_in_first_dimension ?A"
    unfolding differ_in_first_dimension_def
    by (intro bexI [of _ "\<lparr>shape = [4, 4], dtype = UIntAtom 8, buffer = [1]\<rparr>"]
              bexI [of _ "\<lparr>shape = [5, 4], dtype = UIntAtom 8, buffer = [2]\<rparr>"]) simp_all
  have s: "?B \<noteq> [] \<and> (\<forall>x\<in>set ?B. shape x = [10, 10] \<and> dtype x = FloatAtom 64)"
    by simp
  have c: "\<not> (\<forall>x\<in>set ?C. \<forall>y\<in>set ?C. shape x = shape y)"
    by simp
  from assemble_by_shape [of ?A "[]"] d
  have 1: "assemble ?A [] = (Inr (ObjectArray [length ?A] ?A), [] @ [InconsistentShapes])"
    by blast
  from assemble_by_shape [of ?B "[]" 10 10 "FloatAtom 64"] s
  have 2: "assemble ?B [] = (Inr (Stacked [length ?B, 10, 10] (FloatAtom 64) ?B), [])"
    by blast
  from assemble_by_shape [of ?C "[]"] c
  have 3: "snd (assemble ?C []) = [] @ [InconsistentShapes]"
    by blast
  from 1 2 3 show ?thesis by simp
qed

text \<open>
  C3 as stated fails twice. Two arrays of shape \<open>(2, 2)\<close> with element types \<open>int32\<close> and
  \<open>float64\<close> are stacked into one \<open>float64\<close> array of shape \<open>(2, 2, 2)\<close> without a warning,
  although their element types differ. Two arrays of shapes \<open>(4, 4)\<close> and \<open>(4, 5)\<close> make
  \<open>numpy.array(images, dtype=object)\<close> raise \<open>ValueError\<close> (could not broadcast input array
  from shape (4,4) into shape (4,)) after the warning; \<open>extract_images\<close> does not catch it.
\<close>

lemma mixed_type_extracted:
  "extract_from_file (H5File mixed_type_tree) (Some 2) =
     Inr \<lparr>images = [\<lparr>shape = [2, 2], dtype = IntAtom 32, buffer = [1, 2, 3, 4]\<rparr>,
                     \<lparr>shape = [2, 2], dtype = FloatAtom 64, buffer = [5, 6, 7, 8]\<rparr>],
          warnings = [], reads = [''/i'', ''/f'']\<rparr>"
  by (simp add: extract_from_file_def mixed_type_tree_def reached_def read_child_def)

lemma mixed_type_stacked:
  "assemble [\<lparr>shape = [2, 2], dtype = IntAtom 32, buffer = [1, 2, 3, 4]\<rparr>,
             \<lparr>shape = [2, 2], dtype = FloatAtom 64, buffer = [5, 6, 7, 8]\<rparr>] [] =
     (Inr (Stacked [2, 2, 2] (FloatAtom 64)
            [\<lparr>shape = [2, 2], dtype = FloatAtom 64, buffer = [1, 2, 3, 4]\<rparr>,
             \<lparr>shape = [2, 2], dtype = FloatAtom 64, buffer = [5, 6, 7, 8]\<rparr>]), [])"
  by (simp add: assemble_def np_array_def same_shape_def astype_def float_for_int_def
        significand_bits_def round_to_bits_exact)

lemma same_height_extracted:
  "extract_from_file (H5File same_height_tree) (Some 2) =
     Inr \<lparr>images = [\<lparr>shape = [4, 4], dtype = UIntAtom 8, buffer = [1]\<rparr>,
                     \<lparr>shape = [4, 5], dtype = UIntAtom 8, buffer = [2]\<rparr>],
          warnings = [], reads = [''/p'', ''/q'']\<rparr>"
  by (simp add: extract_from_file_def same_height_tree_def reached_def read_child_def)

lemma height_not_broadcastable: "\<not> broadcastable [4, 4] [4]" "\<not> broadcastable [4, 5] [4]"
  by (simp_all add: broadcastable_def)

lemma same_height_object_fails:
  "np_array_object [\<lparr>shape = [4, 4], dtype = UIntAtom 8, buffer = [1]\<rparr>,
                    \<lparr>shape = [4, 5], dtype = UIntAtom 8, buffer = [2]\<rparr>] = Inl CouldNotBroadcast"
  unfolding np_array_object_def by (simp add: same_shape_def height_not_broadcastable)

lemma same_height_assemble_fails:
  "assemble [\<lparr>shape = [4, 4], dtype = UIntAtom 8, buffer = [1]\<rparr>,
             \<lparr>shape = [4, 5], dtype = UIntAtom 8, buffer = [2]\<rparr>] ws =
     (Inl CouldNotBroadcast, ws @ [InconsistentShapes])"
  unfolding assemble_def same_height_object_fails by (simp add: np_array_def same_shape_def)

theorem assemble_claim_counterexample:
  "extract_images (example_extractor\<lparr>total_images := 2\<rparr>) (H5File mixed_type_tree) (Some 2) =
     (Inr (Stacked [2, 2, 2] (FloatAtom 64)
            [\<lparr>shape = [2, 2], dtype = FloatAtom 64, buffer = [1, 2, 3, 4]\<rparr>,
             \<lparr>shape = [2, 2], dtype = FloatAtom 64, buffer = [5, 6, 7, 8]\<rparr>]),
      \<lparr>images = [\<lparr>shape = [2, 2], dtype = IntAtom 32, buffer = [1, 2, 3, 4]\<rparr>,
                 \<lparr>shape = [2, 2], dtype = FloatAtom 64, buffer = [5, 6, 7, 8]\<rparr>],
       warnings = [], reads = [''/i'', ''/f'']\<rparr>,
      example_extractor\<lparr>total_images := 2\<rparr>) \<and>
   extract_images (example_extractor\<lparr>total_images := 2\<rparr>) (H5File same_height_tree) (Some 2) =
     (Inl CouldNotBroadcast,
      \<lparr>images = [\<lparr>shape = [4, 4], dtype = UIntAtom 8, buffer = [1]\<rparr>,
                 \<lparr>shape = [4, 5], dtype = UIntAtom 8, buffer = [2]\<rparr>],
       warnings = [InconsistentShapes], reads = [''/p'', ''/q'']\<rparr>,
      example_extractor\<lparr>total_images := 2\<rparr>)"
  by (simp add: extract_images_def mixed_type_extracted mixed_type_stacked
        same_height_extracted same_height_assemble_fails)












subsection \<open>Candidates that cannot be read\<close>








subsection \<open>The checks of \<open>extract_images\<close> and its effect on the object\<close>

lemma scan_total: "scan_file self0 h5 = (self, K, ws) \<Longrightarrow> total_images self = K"
  by (auto simp: scan_file_def split: sum.splits)

lemma extract_errors:
  "recursive_extract_arrays nd mc st = Inl (e, st') \<Longrightarrow> \<not> precondition_error e"
  "extract_children ns mc st = Inl (e, st') \<Longrightarrow> \<not> precondition_error e"
  by (induction nd mc st and ns mc st rule: recursive_extract_arrays_extract_children.induct)
     (auto split: if_splits sum.splits)

lemma extract_from_file_errors:
  "extract_from_file h5 mc = Inl (e, st) \<Longrightarrow> \<not> precondition_error e"
  by (cases h5) (auto simp: extract_from_file_def dest: extract_errors(1))

text \<open>
  C6. \<open>extract_images\<close> on the object that the constructor returns, and on the object
  after a scan that returned 0, raises the \<open>ValueError\<close> "No images found in file. Run
  scan_file() first.", whatever the argument and the file.
\<close>

theorem extract_images_requires_scan:
  "(H5ImageExtractor info path = Inr (self, ws) \<longrightarrow>
      fst (extract_images self h5 n) = Inl NoImagesFound) \<and>
   (scan_file self0 h5 = (self', 0, ws') \<longrightarrow>
      fst (extract_images self' h5' n) = Inl NoImagesFound)"
proof (intro conjI impI)
  assume "H5ImageExtractor info path = Inr (self, ws)"
  then have "total_images self = 0"
    by (auto simp: H5ImageExtractor_def split: if_splits)
  then show "fst (extract_images self h5 n) = Inl NoImagesFound"
    by (simp add: extract_images_def)
next
  assume "scan_file self0 h5 = (self', 0, ws')"
  then have "total_images self' = 0" by (rule scan_total)
  then show "fst (extract_images self' h5' n) = Inl NoImagesFound"
    by (simp add: extract_images_def)
qed

theorem extract_images_requires_scan_witness:
  "H5ImageExtractor \<lparr>path_exists = True, path_is_file = True, path_suffix = ''.h5''\<rparr>
     ''example_file.h5'' = Inr (example_extractor, []) \<and>
   fst (extract_images example_extractor (H5File example_tree) (Some 1)) = Inl NoImagesFound \<and>
   scan_file example_extractor (H5File (Group [Array ''/c/vec'' [5] (FloatAtom 64) (Inr [3])])) =
     (example_extractor, 0, []) \<and>
   fst (extract_images example_extractor (H5File example_tree) None) = Inl NoImagesFound"
proof -
  have a: "H5ImageExtractor \<lparr>path_exists = True, path_is_file = True, path_suffix = ''.h5''\<rparr>
             ''example_file.h5'' = Inr (example_extractor, [])"
    by (simp add: H5ImageExtractor_def example_extractor_def lower_char_def)
  have b: "scan_file example_extractor (H5File (Group [Array ''/c/vec'' [5] (FloatAtom 64) (Inr [3])])) =
             (example_extractor, 0, [])"
    by (simp add: scan_file_def count_images_in_file_def example_extractor_def)
  from extract_images_requires_scan
         [where info = "\<lparr>path_exists = True, path_is_file = True, path_suffix = ''.h5''\<rparr>"
            and path = "''example_file.h5''" and self = example_extractor and ws = "[]"
            and ?h5.0 = "H5File (Group [Array ''/c/vec'' [5] (FloatAtom 64) (Inr [3])])"
            and n = "Some 1" and ?self0.0 = example_extractor and self' = example_extractor
            and ws' = "[]" and h5' = "H5File example_tree"]
       extract_images_requires_scan
         [where info = "\<lparr>path_exists = True, path_is_file = True, path_suffix = ''.h5''\<rparr>"
            and path = "''example_file.h5''" and self = example_extractor and ws = "[]"
            and ?h5.0 = "H5File (Group [Array ''/c/vec'' [5] (FloatAtom 64) (Inr [3])])"
            and n = None and ?self0.0 = example_extractor and self' = example_extractor
            and ws' = "[]" and h5' = "H5File example_tree"]
       a b
  show ?thesis by simp
qed

text \<open>
  C7. After a scan that returned \<open>K \<ge> 1\<close>, \<open>extract_images(n)\<close> raises "Number of images
  must be positive" for every \<open>n \<le> 0\<close> and "Requested n images but only K available"
  for every \<open>n > K\<close>; for \<open>1 \<le> n \<le> K\<close> it raises none of the three errors of its argument
  checks.
\<close>

theorem extract_images_argument_errors:
  assumes sc: "scan_file self0 h5 = (self, K, ws)" and K: "1 \<le> K"
  shows "(n \<le> 0 \<longrightarrow> fst (extract_images self h5' (Some n)) = Inl NotPositive) \<and>
         (K < n \<longrightarrow> fst (extract_images self h5' (Some n)) = Inl (RequestedTooMany n K)) \<and>
         (1 \<le> n \<and> n \<le> K \<longrightarrow>
            (\<forall>e. fst (extract_images self h5' (Some n)) = Inl e \<longrightarrow> \<not> precondition_error e))"
proof -
  have tot: "total_images self = K" using sc by (rule scan_total)
  have neg: "fst (extract_images self h5' (Some n)) = Inl NotPositive" if "n \<le> 0"
    using that tot K by (simp add: extract_images_def)
  have big: "fst (extract_images self h5' (Some n)) = Inl (RequestedTooMany n K)" if "K < n"
    using that tot K by (simp add: extract_images_def)
  have ok: "\<not> precondition_error e"
    if n: "1 \<le> n \<and> n \<le> K" and e: "fst (extract_images self h5' (Some n)) = Inl e" for e
  proof (cases "extract_from_file h5' (Some n)")
    case (Inl raised)
    obtain e' st where raised: "raised = (e', st)" by (cases raised)
    with Inl n e tot have "e = e'" by (simp add: extract_images_def)
    with Inl raised show ?thesis by (simp add: extract_from_file_errors)
  next
    case (Inr st)
    with n tot have "fst (extract_images self h5' (Some n)) =
                       fst (assemble (images st) (warnings st))"
      by (simp add: extract_images_in_range)
    with e have "fst (assemble (images st) (warnings st)) = Inl e" by simp
    then have "e = CouldNotBroadcast" by (rule assemble_errors)
    then show ?thesis by simp
  qed
  from neg big ok show ?thesis by blast
qed

theorem extract_images_argument_errors_witness:
  "scan_file example_extractor (H5File example_tree) =
     (example_extractor\<lparr>total_images := 2\<rparr>, 2, []) \<and>
   fst (extract_images (example_extractor\<lparr>total_images := 2\<rparr>) (H5File example_tree) (Some 0)) =
     Inl NotPositive \<and>
   fst (extract_images (example_extractor\<lparr>total_images := 2\<rparr>) (H5File example_tree) (Some 3)) =
     Inl (RequestedTooMany 3 2) \<and>
   fst (extract_images (example_extractor\<lparr>total_images := 2\<rparr>) (H5File example_tree) (Some 2)) =
     Inr (Stacked [2, 10, 10] (FloatAtom 64)
            [\<lparr>shape = [10, 10], dtype = FloatAtom 64, buffer = [1]\<rparr>,
             \<lparr>shape = [10, 10], dtype = FloatAtom 64, buffer = [2]\<rparr>])"
proof -
  have x: "extract_from_file (H5File example_tree) (Some 2) =
             Inr \<lparr>images = [\<lparr>shape = [10, 10], dtype = FloatAtom 64, buffer = [1]\<rparr>,
                            \<lparr>shape = [10, 10], dtype = FloatAtom 64, buffer = [2]\<rparr>],
                  warnings = [], reads = [''/a/img'', ''/a/b/img'']\<rparr>"
    by (simp add: extract_from_file_def example_tree_def reached_def read_child_def)
  have y: "assemble [\<lparr>shape = [10, 10], dtype = FloatAtom 64, buffer = [1]\<rparr>,
                     \<lparr>shape = [10, 10], dtype = FloatAtom 64, buffer = [2]\<rparr>] [] =
             (Inr (Stacked [2, 10, 10] (FloatAtom 64)
                     [\<lparr>shape = [10, 10], dtype = FloatAtom 64, buffer = [1]\<rparr>,
                      \<lparr>shape = [10, 10], dtype = FloatAtom 64, buffer = [2]\<rparr>]), [])"
    using assemble_uniform
            [of "[\<lparr>shape = [10, 10], dtype = FloatAtom 64, buffer = [1]\<rparr>,
                  \<lparr>shape = [10, 10], dtype = FloatAtom 64, buffer = [2]\<rparr>]"
                "[10, 10]" "FloatAtom 64" "[]"]
    by simp
  have d: "fst (extract_images (example_extractor\<lparr>total_images := 2\<rparr>) (H5File example_tree) (Some 2)) =
     Inr (Stacked [2, 10, 10] (FloatAtom 64)
            [\<lparr>shape = [10, 10], dtype = FloatAtom 64, buffer = [1]\<rparr>,
             \<lparr>shape = [10, 10], dtype = FloatAtom 64, buffer = [2]\<rparr>])"
    by (simp add: extract_images_def x y)
  have c: "scan_file example_extractor (H5File example_tree) =
             (example_extractor\<lparr>total_images := 2\<rparr>, 2, [])"
    by (simp add: scan_file_def count_images_in_file_def example_tree_def)
  from extract_images_argument_errors [OF c, of 0 "H5File example_tree"]
       extract_images_argument_errors [OF c, of 3 "H5File example_tree"]
       extract_images_argument_errors [OF c, of 2 "H5File example_tree"] c d
  show ?thesis by simp
qed

text \<open>
  C9. \<open>extract_images\<close> leaves the object as it was, whatever the argument and the file
  and whether it returns or raises; \<open>scan_file\<close> writes \<open>total_images\<close> and leaves
  \<open>file_path\<close> alone.
\<close>

theorem extract_images_keeps_state:
  "snd (snd (extract_images self h5 n)) = self \<and>
   total_images (snd (snd (extract_images self h5 n))) = total_images self \<and>
   file_path (snd (snd (extract_images self h5 n))) = file_path self \<and>
   file_path (fst (scan_file self h5)) = file_path self"
proof -
  have "snd (snd (extract_images self h5 n)) = self"
    by (simp add: extract_images_def Let_def split: sum.splits prod.splits)
  moreover have "file_path (fst (scan_file self h5)) = file_path self"
    by (simp add: scan_file_def split: sum.splits)
  ultimately show ?thesis by simp
qed

text \<open>
  C10. While \<open>total_images\<close> is 0 every call of \<open>extract_images\<close> raises "No images found
  in file. Run scan_file() first.": with \<open>n\<close> omitted, with \<open>n = 0\<close>, with any other \<open>n\<close>.
  The test of the cached count comes before the two tests of \<open>n\<close>, so \<open>extract_images(0)\<close>
  does not raise "Number of images must be positive" then. A scan that fails leaves
  \<open>total_images\<close> at 0.
\<close>

theorem invalid_state_takes_precedence:
  assumes "total_images self = 0"
  shows "fst (extract_images self h5 n) = Inl NoImagesFound \<and>
         fst (extract_images self h5 None) = Inl NoImagesFound \<and>
         fst (extract_images self h5 (Some 0)) \<noteq> Inl NotPositive \<and>
         (\<forall>k. fst (extract_images self h5 (Some k)) \<noteq> Inl (RequestedTooMany k 0)) \<and>
         (\<forall>e. count_images_in_file h5' = Inl e \<longrightarrow>
               total_images (fst (scan_file self h5')) = 0)"
  using assms by (simp add: extract_images_def scan_file_def)

theorem invalid_state_takes_precedence_witness:
  "total_images (fst (scan_file example_extractor (Unopenable ''missing''))) = 0 \<and>
   fst (extract_images (fst (scan_file example_extractor (Unopenable ''missing'')))
          (H5File example_tree) (Some 0)) = Inl NoImagesFound \<and>
   fst (extract_images (fst (scan_file example_extractor (Unopenable ''missing'')))
          (H5File example_tree) (Some 0)) \<noteq> Inl NotPositive"
proof -
  have z: "total_images (fst (scan_file example_extractor (Unopenable ''missing''))) = 0"
    by (simp add: scan_file_def count_images_in_file_def)
  from invalid_state_takes_precedence [OF z, of "H5File example_tree" "Some 0"] z
  show ?thesis by simp
qed

subsection \<open>Failures during a pass\<close>

lemma count_not_loadable:
  "(\<forall>cs. nd = Group cs \<longrightarrow> \<not> list_all (\<lambda>n. \<not> is_unloadable n) (nodes_in cs) \<longrightarrow>
      (\<exists>e. recursive_count_arrays nd c = Inl e))"
  "\<not> list_all (\<lambda>n. \<not> is_unloadable n) (nodes_in ns) \<Longrightarrow> \<exists>e. count_children ns c = Inl e"
  by (induction nd c and ns c rule: recursive_count_arrays_count_children.induct)
     (auto split: sum.splits)

lemma scan_not_loadable:
  assumes "is_group root" and "\<not> loadable root"
  shows "\<exists>e. scan_file self (H5File root) =
              (self\<lparr>total_images := 0\<rparr>, 0, [ErrorReading (file_path self) e])"
proof -
  from assms(1) obtain cs where root: "root = Group cs" by (cases root) auto
  with assms have "\<not> list_all (\<lambda>n. \<not> is_unloadable n) (nodes_in cs)"
    by (simp add: loadable_def)
  with count_not_loadable(1) [of root 0] root
  obtain e where "recursive_count_arrays root 0 = Inl e" by blast
  then show ?thesis by (simp add: scan_file_def count_images_in_file_def)
qed

lemma unreadable_child_skipped:
  assumes "2 \<le> length sh" and "\<not> reached mc st"
  shows "extract_children (Array p sh a (Inl msg) # rest) mc st =
           extract_children rest mc
             (st\<lparr>warnings := warnings st @ [CouldNotRead p (LibraryError msg)],
                 reads := reads st @ [p]\<rparr>)"
  using assms by (simp add: read_child_def)

lemma length_images_read_child:
  "length (images (read_child p sh a r st)) =
     length (images st) + (if readable (Array p sh a r) then 1 else 0)"
  by (cases r) (simp_all add: read_child_def readable_def)

lemma extract_growth:
  "recursive_extract_arrays nd mc st = Inr st' \<Longrightarrow>
     length (images st') \<le>
       length (images st) + length (filter readable (filter is_image (nodes_below nd)))"
  "extract_children ns mc st = Inr st' \<Longrightarrow>
     length (images st') \<le>
       length (images st) + length (filter readable (filter is_image (nodes_in ns)))"
proof (induction nd mc st and ns mc st arbitrary: st' and st'
       rule: recursive_extract_arrays_extract_children.induct)
  case (1 children max_count st)
  then show ?case by (auto split: if_splits)
next
  case (2 msg max_count st)
  then show ?case by (auto split: if_splits)
next
  case (3 p sh a r max_count st)
  then show ?case by (auto split: if_splits)
next
  case (4 max_count st)
  then show ?case by (auto split: if_splits)
next
  case (5 max_count st)
  then show ?case by simp
next
  case (6 msg rest max_count st)
  then show ?case by simp
next
  case (7 p sh a r rest max_count st)
  show ?case
  proof (cases "reached max_count st")
    case True
    with 7(3) show ?thesis by simp
  next
    case False
    show ?thesis
    proof (cases "2 \<le> length sh")
      case True
      with False 7(3) have "extract_children rest max_count (read_child p sh a r st) = Inr st'"
        by simp
      from 7(1) [OF False True this] True show ?thesis
        by (simp add: length_images_read_child split: if_splits)
    next
      case nt: False
      with False 7(3) have "extract_children rest max_count st = Inr st'" by simp
      from 7(2) [OF False nt this] nt show ?thesis by simp
    qed
  qed
next
  case (8 children rest max_count st)
  show ?case
  proof (cases "reached max_count st")
    case True
    with 8(3) show ?thesis by simp
  next
    case False
    with 8(3) obtain mid where
      mid: "recursive_extract_arrays (Group children) max_count st = Inr mid"
      and rest: "extract_children rest max_count mid = Inr st'"
      by (auto split: sum.splits)
    from 8(1) [OF False mid] 8(2) [OF False mid rest] show ?thesis by simp
  qed
next
  case (9 rest max_count st)
  show ?case
  proof (cases "reached max_count st")
    case True
    with 9(2) show ?thesis by simp
  next
    case False
    with 9(2) have "extract_children rest max_count st = Inr st'" by simp
    from 9(1) [OF False this] show ?thesis by simp
  qed
qed

lemma extract_raises:
  "(\<forall>cs. nd = Group cs \<longrightarrow> mc = Some n \<longrightarrow>
      \<not> list_all (\<lambda>n. \<not> is_unloadable n) (nodes_in cs) \<longrightarrow>
      int (length (images st)) +
        int (length (filter readable (filter is_image (nodes_in cs)))) < n \<longrightarrow>
      (\<exists>msg st'. recursive_extract_arrays nd mc st = Inl (LibraryError msg, st')))"
  "mc = Some n \<Longrightarrow> \<not> list_all (\<lambda>n. \<not> is_unloadable n) (nodes_in ns) \<Longrightarrow>
     int (length (images st)) +
       int (length (filter readable (filter is_image (nodes_in ns)))) < n \<Longrightarrow>
     \<exists>msg st'. extract_children ns mc st = Inl (LibraryError msg, st')"
proof (induction nd mc st and ns mc st
       rule: recursive_extract_arrays_extract_children.induct)
  case (1 children max_count st)
  show ?case
  proof (intro allI impI)
    fix cs
    assume a: "Group children = Group cs" "max_count = Some n"
      "\<not> list_all (\<lambda>n. \<not> is_unloadable n) (nodes_in cs)"
      "int (length (images st)) +
         int (length (filter readable (filter is_image (nodes_in cs)))) < n"
    then have nr: "\<not> reached max_count st" by (simp add: reached_def)
    from a have cs: "cs = children" by simp
    from 1 [OF nr a(2) a(3) [unfolded cs] a(4) [unfolded cs]] nr
    show "\<exists>msg st'. recursive_extract_arrays (Group children) max_count st =
                      Inl (LibraryError msg, st')"
      by simp
  qed
next
  case (2 msg max_count st)
  then show ?case by simp
next
  case (3 p sh a r max_count st)
  then show ?case by simp
next
  case (4 max_count st)
  then show ?case by simp
next
  case (5 max_count st)
  then show ?case by simp
next
  case (6 msg rest max_count st)
  then show ?case by simp
next
  case (7 p sh a r rest max_count st)
  from 7(3,5) have nr: "\<not> reached max_count st" by (simp add: reached_def)
  from 7(4) have ul: "\<not> list_all (\<lambda>n. \<not> is_unloadable n) (nodes_in rest)" by simp
  show ?case
  proof (cases "2 \<le> length sh")
    case True
    have "int (length (images (read_child p sh a r st))) +
            int (length (filter readable (filter is_image (nodes_in rest)))) < n"
      using 7(5) True
      by (cases "readable (Array p sh a r)") (simp_all add: length_images_read_child)
    from 7(1) [OF nr True 7(3) ul this] nr True show ?thesis by simp
  next
    case False
    have "int (length (images st)) +
            int (length (filter readable (filter is_image (nodes_in rest)))) < n"
      using 7(5) False by simp
    from 7(2) [OF nr False 7(3) ul this] nr False show ?thesis by simp
  qed
next
  case (8 children rest max_count st)
  from 8(3,5) have nr: "\<not> reached max_count st" by (simp add: reached_def)
  show ?case
  proof (cases "recursive_extract_arrays (Group children) max_count st")
    case (Inl raised)
    show ?thesis
    proof (cases "list_all (\<lambda>n. \<not> is_unloadable n) (nodes_in children)")
      case True
      from extract_children_loadable(1) [of "Group children" max_count st] True Inl
      show ?thesis by simp
    next
      case False
      have "int (length (images st)) +
              int (length (filter readable (filter is_image (nodes_in children)))) < n"
        using 8(5) by simp
      with 8(1) [OF nr] 8(3) False nr Inl show ?thesis by auto
    qed
  next
    case (Inr mid)
    from extract_growth(1) [OF Inr]
    have g: "length (images mid) \<le>
               length (images st) +
                 length (filter readable (filter is_image (nodes_in children)))"
      by simp
    have b: "int (length (images mid)) +
               int (length (filter readable (filter is_image (nodes_in rest)))) < n"
      using g 8(5) by simp
    have ul: "\<not> list_all (\<lambda>n. \<not> is_unloadable n) (nodes_in rest)"
    proof
      assume r: "list_all (\<lambda>n. \<not> is_unloadable n) (nodes_in rest)"
      with 8(4) have c: "\<not> list_all (\<lambda>n. \<not> is_unloadable n) (nodes_in children)" by simp
      have "int (length (images st)) +
              int (length (filter readable (filter is_image (nodes_in children)))) < n"
        using 8(5) by simp
      with 8(1) [OF nr] 8(3) c Inr show False by auto
    qed
    from 8(2) [OF nr Inr 8(3) ul b] nr Inr show ?thesis by simp
  qed
next
  case (9 rest max_count st)
  from 9(2,4) have nr: "\<not> reached max_count st" by (simp add: reached_def)
  from 9(3) have ul: "\<not> list_all (\<lambda>n. \<not> is_unloadable n) (nodes_in rest)" by simp
  have "int (length (images st)) +
          int (length (filter readable (filter is_image (nodes_in rest)))) < n"
    using 9(4) by simp
  from 9(1) [OF nr 9(2) ul this] nr show ?case by simp
qed

lemma extract_images_propagates:
  assumes "1 \<le> n" "n \<le> total_images self" "extract_from_file h5 (Some n) = Inl (e, st)"
  shows "extract_images self h5 (Some n) = (Inl e, st, self)"
  using assms by (simp add: extract_images_def)

lemma extract_images_unloadable:
  assumes g: "is_group root" and nl: "\<not> loadable root"
    and n: "1 \<le> n" "n \<le> total_images self"
    and few: "int (length (filter readable (filter is_image (nodes_below root)))) < n"
  shows "\<exists>msg st. extract_images self (H5File root) (Some n) = (Inl (LibraryError msg), st, self)"
proof -
  let ?init = "\<lparr>images = [], warnings = [], reads = []\<rparr>"
  from g obtain cs where root: "root = Group cs" by (cases root) auto
  with nl have ul: "\<not> list_all (\<lambda>n. \<not> is_unloadable n) (nodes_in cs)"
    by (simp add: loadable_def)
  from few root have b: "int (length (images ?init)) +
      int (length (filter readable (filter is_image (nodes_in cs)))) < n"
    by simp
  from extract_raises(1) [of root "Some n" n ?init] root ul b
  obtain msg st where "recursive_extract_arrays root (Some n) ?init = Inl (LibraryError msg, st)"
    by blast
  then have "extract_from_file (H5File root) (Some n) = Inl (LibraryError msg, st)"
    by (simp add: extract_from_file_def)
  from extract_images_propagates [OF n this] show ?thesis by blast
qed

lemma extract_images_walk:
  assumes ld: "loadable root" and n: "1 \<le> n" "n \<le> total_images self"
  shows "\<exists>k\<le>length (candidates root).
           reads (trace (extract_images self (H5File root) (Some n))) =
             map pathname (take k (candidates root)) \<and>
           images (trace (extract_images self (H5File root) (Some n))) =
             List.map_filter read_of (take k (candidates root)) \<and>
           warnings (trace (extract_images self (H5File root) (Some n))) =
             snd (assemble (images (trace (extract_images self (H5File root) (Some n))))
                    (concat (map warning_of (take k (candidates root))))) \<and>
           (k < length (candidates root) \<longrightarrow>
              int (length (images (trace (extract_images self (H5File root) (Some n))))) = n)"
proof -
  let ?cs = "candidates root"
  let ?init = "\<lparr>images = [], warnings = [], reads = []\<rparr>"
  let ?st = "walk ?cs (Some n) ?init"
  let ?r = "extract_images self (H5File root) (Some n)"
  have ex: "extract_from_file (H5File root) (Some n) = Inr ?st"
    by (rule extract_loadable [OF ld])
  have r: "?r = (fst (assemble (images ?st) (warnings ?st)),
                 ?st\<lparr>warnings := snd (assemble (images ?st) (warnings ?st))\<rparr>, self)"
    by (rule extract_images_in_range [OF n ex])
  have tr: "images (trace ?r) = images ?st" "reads (trace ?r) = reads ?st"
    "warnings (trace ?r) = snd (assemble (images ?st) (warnings ?st))"
    by (simp_all add: r trace_def)
  have im: "images ?st = take (nat n) (List.map_filter read_of ?cs)"
    using walk_images [of ?cs n ?init] by simp
  then have le: "int (length (images ?st)) \<le> n" using n by simp
  from walk_prefix [OF list_all_candidates, of root "Some n" ?init]
  obtain k where k: "k \<le> length ?cs"
    "images ?st = List.map_filter read_of (take k ?cs)"
    "warnings ?st = concat (map warning_of (take k ?cs))"
    "reads ?st = map pathname (take k ?cs)"
    "k < length ?cs \<longrightarrow> reached (Some n) ?st"
    by auto
  have full: "int (length (images ?st)) = n" if "k < length ?cs"
    using that k(5) le by (simp add: reached_def)
  show ?thesis
    unfolding tr
    apply (rule exI [of _ k])
    using k(1,2,3,4) full by simp
qed

lemma extract_images_walk_errors:
  assumes ld: "loadable root" and n: "1 \<le> n" "n \<le> total_images self"
    and e: "fst (extract_images self (H5File root) (Some n)) = Inl e"
  shows "e = CouldNotBroadcast"
proof -
  let ?st = "walk (candidates root) (Some n) \<lparr>images = [], warnings = [], reads = []\<rparr>"
  have ex: "extract_from_file (H5File root) (Some n) = Inr ?st"
    by (rule extract_loadable [OF ld])
  from e have "fst (assemble (images ?st) (warnings ?st)) = Inl e"
    unfolding extract_images_in_range [OF n ex] by simp
  then show ?thesis by (rule assemble_errors)
qed

text \<open>
  C8 (as amended). In the extracting pass a candidate whose \<open>read()\<close> raises is skipped
  with a warning and the pass goes on with the nodes that follow; on a tree that loads
  the pass never raises, and \<open>extract_images\<close> has read a prefix of the candidates, with one
  warning for each that could not be read, stopping before the last candidate only when
  it holds \<open>n\<close> arrays. The counting pass reads no array: on a tree that loads it counts
  every candidate, readable or not, and warns of nothing. An exception raised while the
  file is opened or the children of a group are iterated ends either pass: \<open>scan_file\<close>
  catches it, warns once and returns and caches 0; \<open>extract_images\<close> lets it propagate.
\<close>

theorem read_failures_by_pass:
  "(2 \<le> length sh \<and> \<not> reached mc st \<longrightarrow>
      extract_children (Array p sh a (Inl msg) # rest) mc st =
        extract_children rest mc
          (st\<lparr>warnings := warnings st @ [CouldNotRead p (LibraryError msg)],
              reads := reads st @ [p]\<rparr>)) \<and>
   (loadable root \<longrightarrow>
      (\<exists>st'. extract_from_file (H5File root) mc = Inr st') \<and>
      scan_file self (H5File root) =
        (self\<lparr>total_images := int (length (filter is_image (nodes_below root)))\<rparr>,
         int (length (filter is_image (nodes_below root))), [])) \<and>
   (loadable root \<and> 1 \<le> n \<and> n \<le> total_images self \<longrightarrow>
      (\<exists>k\<le>length (filter is_image (nodes_below root)).
         reads (trace (extract_images self (H5File root) (Some n))) =
           map pathname (take k (filter is_image (nodes_below root))) \<and>
         images (trace (extract_images self (H5File root) (Some n))) =
           List.map_filter read_of (take k (filter is_image (nodes_below root))) \<and>
         warnings (trace (extract_images self (H5File root) (Some n))) =
           snd (assemble (images (trace (extract_images self (H5File root) (Some n))))
                  (concat (map warning_of (take k (filter is_image (nodes_below root)))))) \<and>
         (k < length (filter is_image (nodes_below root)) \<longrightarrow>
            int (length (images (trace (extract_images self (H5File root) (Some n))))) = n)) \<and>
      (\<forall>e. fst (extract_images self (H5File root) (Some n)) = Inl e \<longrightarrow>
           e = CouldNotBroadcast)) \<and>
   (is_group root \<and> \<not> loadable root \<longrightarrow>
      (\<exists>e. scan_file self (H5File root) =
             (self\<lparr>total_images := 0\<rparr>, 0, [ErrorReading (file_path self) e]))) \<and>
   (is_group root \<and> \<not> loadable root \<and> 1 \<le> n \<and> n \<le> total_images self \<and>
    int (length (filter readable (filter is_image (nodes_below root)))) < n \<longrightarrow>
      (\<exists>m st'. extract_images self (H5File root) (Some n) =
                 (Inl (LibraryError m), st', self))) \<and>
   scan_file self (Unopenable msg) =
     (self\<lparr>total_images := 0\<rparr>, 0, [ErrorReading (file_path self) (LibraryError msg)]) \<and>
   (1 \<le> n \<and> n \<le> total_images self \<longrightarrow>
      extract_images self (Unopenable msg) (Some n) =
        (Inl (LibraryError msg), \<lparr>images = [], warnings = [], reads = []\<rparr>, self)) \<and>
   (1 \<le> n \<and> n \<le> total_images self \<and> extract_from_file h5 (Some n) = Inl (e', st'') \<longrightarrow>
      extract_images self h5 (Some n) = (Inl e', st'', self)) \<and>
   count_children (Unloadable msg # rest) c = Inl (LibraryError msg) \<and>
   extract_children (Unloadable msg # rest) mc st = Inl (LibraryError msg, st)"
proof -
  have cs: "filter is_image (nodes_below root) = candidates root" by (simp add: candidates_def)
  have 1: "extract_children (Array p sh a (Inl msg) # rest) mc st =
             extract_children rest mc
               (st\<lparr>warnings := warnings st @ [CouldNotRead p (LibraryError msg)],
                   reads := reads st @ [p]\<rparr>)"
    if "2 \<le> length sh \<and> \<not> reached mc st"
    using that unreadable_child_skipped [of sh mc st p a msg rest] by simp
  have 2: "(\<exists>st'. extract_from_file (H5File root) mc = Inr st') \<and>
            scan_file self (H5File root) =
              (self\<lparr>total_images := int (length (candidates root))\<rparr>,
               int (length (candidates root)), [])"
    if "loadable root"
    using extract_loadable [OF that, of mc] scan_loadable [OF that, of self] by simp
  have 3: "(\<exists>k\<le>length (candidates root).
         reads (trace (extract_images self (H5File root) (Some n))) =
           map pathname (take k (candidates root)) \<and>
         images (trace (extract_images self (H5File root) (Some n))) =
           List.map_filter read_of (take k (candidates root)) \<and>
         warnings (trace (extract_images self (H5File root) (Some n))) =
           snd (assemble (images (trace (extract_images self (H5File root) (Some n))))
                  (concat (map warning_of (take k (candidates root))))) \<and>
         (k < length (candidates root) \<longrightarrow>
            int (length (images (trace (extract_images self (H5File root) (Some n))))) = n)) \<and>
      (\<forall>e. fst (extract_images self (H5File root) (Some n)) = Inl e \<longrightarrow>
           e = CouldNotBroadcast)"
    if "loadable root \<and> 1 \<le> n \<and> n \<le> total_images self"
    using that extract_images_walk [of root n self] extract_images_walk_errors [of root n self]
    by blast
  have 4: "\<exists>e. scan_file self (H5File root) =
             (self\<lparr>total_images := 0\<rparr>, 0, [ErrorReading (file_path self) e])"
    if "is_group root \<and> \<not> loadable root"
    using that scan_not_loadable [of root self] by simp
  have 5: "\<exists>m st'. extract_images self (H5File root) (Some n) =
                 (Inl (LibraryError m), st', self)"
    if "is_group root \<and> \<not> loadable root \<and> 1 \<le> n \<and> n \<le> total_images self \<and>
        int (length (filter readable (candidates root))) < n"
    using that extract_images_unloadable [of root n self] by (simp add: candidates_def)
  have 6: "scan_file self (Unopenable msg) =
     (self\<lparr>total_images := 0\<rparr>, 0, [ErrorReading (file_path self) (LibraryError msg)])"
    by (simp add: scan_file_def count_images_in_file_def)
  have 7: "extract_images self (Unopenable msg) (Some n) =
        (Inl (LibraryError msg), \<lparr>images = [], warnings = [], reads = []\<rparr>, self)"
    if "1 \<le> n \<and> n \<le> total_images self"
    using that by (simp add: extract_images_def extract_from_file_def)
  have 8: "extract_images self h5 (Some n) = (Inl e', st'', self)"
    if "1 \<le> n \<and> n \<le> total_images self \<and> extract_from_file h5 (Some n) = Inl (e', st'')"
    using that extract_images_propagates [of n self h5 e' st''] by simp
  have 9: "count_children (Unloadable msg # rest) c = Inl (LibraryError msg)"
    "extract_children (Unloadable msg # rest) mc st = Inl (LibraryError msg, st)"
    by simp_all
  show ?thesis
    unfolding cs
    apply (intro conjI impI)
    using 1 2 3 4 5 6 7 8 9 by blast+
qed

theorem read_failures_by_pass_witness:
  "extract_children [Array ''/u'' [3, 3] (UIntAtom 16) (Inl ''corrupt'')] None
      \<lparr>images = [], warnings = [], reads = []\<rparr> =
     Inr \<lparr>images = [], warnings = [CouldNotRead ''/u'' (LibraryError ''corrupt'')],
          reads = [''/u'']\<rparr> \<and>
   scan_file example_extractor (H5File corrupt_tree) =
     (example_extractor\<lparr>total_images := 3\<rparr>, 3, []) \<and>
   reads (trace (extract_images (example_extractor\<lparr>total_images := 3\<rparr>)
                   (H5File corrupt_tree) (Some 3))) = [''/u'', ''/g/v'', ''/w''] \<and>
   images (trace (extract_images (example_extractor\<lparr>total_images := 3\<rparr>)
                    (H5File corrupt_tree) (Some 3))) =
     [\<lparr>shape = [3, 3], dtype = UIntAtom 16, buffer = [1]\<rparr>,
      \<lparr>shape = [3, 3], dtype = UIntAtom 16, buffer = [2]\<rparr>] \<and>
   warnings (trace (extract_images (example_extractor\<lparr>total_images := 3\<rparr>)
                      (H5File corrupt_tree) (Some 3))) =
     [CouldNotRead ''/u'' (LibraryError ''corrupt'')] \<and>
   (\<exists>e. scan_file example_extractor (H5File unloadable_tree) =
          (example_extractor\<lparr>total_images := 0\<rparr>, 0, [ErrorReading ''example_file.h5'' e])) \<and>
   (\<exists>m st'. extract_images (example_extractor\<lparr>total_images := 2\<rparr>)
               (H5File unloadable_tree) (Some 2) =
             (Inl (LibraryError m), st', example_extractor\<lparr>total_images := 2\<rparr>)) \<and>
   scan_file example_extractor (Unopenable ''missing'') =
     (example_extractor\<lparr>total_images := 0\<rparr>, 0,
      [ErrorReading ''example_file.h5'' (LibraryError ''missing'')]) \<and>
   extract_images (example_extractor\<lparr>total_images := 2\<rparr>) (Unopenable ''missing'') (Some 1) =
     (Inl (LibraryError ''missing''), \<lparr>images = [], warnings = [], reads = []\<rparr>,
      example_extractor\<lparr>total_images := 2\<rparr>) \<and>
   extract_images (example_extractor\<lparr>total_images := 2\<rparr>) (H5File unloadable_tree) (Some 1) =
     (Inl (LibraryError ''bad object header''), \<lparr>images = [], warnings = [], reads = []\<rparr>,
      example_extractor\<lparr>total_images := 2\<rparr>)"
proof -
  let ?init = "\<lparr>images = [], warnings = [], reads = []\<rparr>"
  let ?three = "example_extractor\<lparr>total_images := 3\<rparr>"
  let ?two = "example_extractor\<lparr>total_images := 2\<rparr>"
  let ?v = "\<lparr>shape = [3, 3], dtype = UIntAtom 16, buffer = [1]\<rparr>"
  let ?w = "\<lparr>shape = [3, 3], dtype = UIntAtom 16, buffer = [2]\<rparr>"
  let ?r = "extract_images ?three (H5File corrupt_tree) (Some 3)"
  let ?cs = "[Array ''/u'' [3, 3] (UIntAtom 16) (Inl ''corrupt''),
              Array ''/g/v'' [3, 3] (UIntAtom 16) (Inr [1]),
              Array ''/w'' [3, 3] (UIntAtom 16) (Inr [2])]"
  have f: "file_path example_extractor = ''example_file.h5''"
    by (simp add: example_extractor_def)
  have a: "loadable corrupt_tree"
    by (simp add: loadable_def corrupt_tree_def)
  have b: "is_group unloadable_tree \<and> \<not> loadable unloadable_tree"
    by (simp add: loadable_def unloadable_tree_def)
  have d: "filter is_image (nodes_below corrupt_tree) =
             [Array ''/u'' [3, 3] (UIntAtom 16) (Inl ''corrupt''),
              Array ''/g/v'' [3, 3] (UIntAtom 16) (Inr [1]),
              Array ''/w'' [3, 3] (UIntAtom 16) (Inr [2])]"
    by (simp add: corrupt_tree_def)
  have g: "int (length (filter readable (filter is_image (nodes_below unloadable_tree)))) < 2"
    by (simp add: unloadable_tree_def readable_def)
  have x: "extract_from_file (H5File unloadable_tree) (Some 1) =
             Inl (LibraryError ''bad object header'', ?init)"
    by (simp add: extract_from_file_def unloadable_tree_def reached_def)
  have h1: "(2::nat) \<le> length [3, 3::nat] \<and> \<not> reached None ?init"
    by (simp add: reached_def)
  note s1 = read_failures_by_pass
              [where sh = "[3, 3]" and mc = None and st = ?init and p = "''/u''"
                 and a = "UIntAtom 16" and msg = "''corrupt''" and rest = "[]",
               THEN conjunct1, THEN mp, OF h1]
  have 1: "extract_children [Array ''/u'' [3, 3] (UIntAtom 16) (Inl ''corrupt'')] None ?init =
             Inr \<lparr>images = [], warnings = [CouldNotRead ''/u'' (LibraryError ''corrupt'')],
                  reads = [''/u'']\<rparr>"
    unfolding s1 by simp
  note s2 = read_failures_by_pass
              [where root = corrupt_tree and self = example_extractor,
               THEN conjunct2, THEN conjunct1, THEN mp, OF a, THEN conjunct2, unfolded d]
  have 2: "scan_file example_extractor (H5File corrupt_tree) = (?three, 3, [])"
    using s2 by simp
  have h3: "loadable corrupt_tree \<and> (1::int) \<le> 3 \<and> 3 \<le> total_images ?three"
    using a by simp
  note s3 = read_failures_by_pass
              [where root = corrupt_tree and self = ?three and n = 3,
               THEN conjunct2, THEN conjunct2, THEN conjunct1, THEN mp, OF h3,
               THEN conjunct1, unfolded d]
  from s3 obtain k where kk: "k \<le> length ?cs"
    "reads (trace ?r) = map pathname (take k ?cs)"
    "images (trace ?r) = List.map_filter read_of (take k ?cs)"
    "warnings (trace ?r) =
       snd (assemble (images (trace ?r)) (concat (map warning_of (take k ?cs))))"
    "k < length ?cs \<longrightarrow> int (length (images (trace ?r))) = 3"
    by blast
  from kk(1) have k1: "k \<le> 3" by simp
  from kk(5) have k5: "k < 3 \<longrightarrow> int (length (images (trace ?r))) = 3" by simp
  note k = k1 kk(2) kk(3) kk(4) k5
  have k3: "k = 3"
  proof (rule ccontr)
    assume "k \<noteq> 3"
    with k(1) have "k = 0 \<or> k = 1 \<or> k = 2" by arith
    with k(3,5) show False by (auto simp: List.map_filter_simps)
  qed
  have 3: "reads (trace ?r) = [''/u'', ''/g/v'', ''/w'']"
    using k(2) unfolding k3 by simp
  have 4: "images (trace ?r) = [?v, ?w]"
    using k(3) unfolding k3 by (simp add: List.map_filter_simps)
  have y: "assemble [?v, ?w] [CouldNotRead ''/u'' (LibraryError ''corrupt'')] =
             (Inr (Stacked [2, 3, 3] (UIntAtom 16) [?v, ?w]),
              [CouldNotRead ''/u'' (LibraryError ''corrupt'')])"
    using assemble_uniform [of "[?v, ?w]" "[3, 3]" "UIntAtom 16"
            "[CouldNotRead ''/u'' (LibraryError ''corrupt'')]"]
    by simp
  have 5: "warnings (trace ?r) = [CouldNotRead ''/u'' (LibraryError ''corrupt'')]"
    using k(4) unfolding k3 4 by (simp add: y)
  note s6 = read_failures_by_pass
              [where root = unloadable_tree and self = example_extractor,
               THEN conjunct2, THEN conjunct2, THEN conjunct2, THEN conjunct1, THEN mp, OF b,
               unfolded f]
  have h7: "is_group unloadable_tree \<and> \<not> loadable unloadable_tree \<and> (1::int) \<le> 2 \<and>
            2 \<le> total_images ?two \<and>
            int (length (filter readable (filter is_image (nodes_below unloadable_tree)))) < 2"
    using b g by simp
  note s7 = read_failures_by_pass
              [where root = unloadable_tree and self = ?two and n = 2,
               THEN conjunct2, THEN conjunct2, THEN conjunct2, THEN conjunct2, THEN conjunct1,
               THEN mp, OF h7]
  note s8 = read_failures_by_pass
              [where self = example_extractor and msg = "''missing''",
               THEN conjunct2, THEN conjunct2, THEN conjunct2, THEN conjunct2, THEN conjunct2,
               THEN conjunct1, unfolded f]
  have h9: "(1::int) \<le> 1 \<and> 1 \<le> total_images ?two" by simp
  note s9 = read_failures_by_pass
              [where self = ?two and msg = "''missing''" and n = 1,
               THEN conjunct2, THEN conjunct2, THEN conjunct2, THEN conjunct2, THEN conjunct2,
               THEN conjunct2, THEN conjunct1, THEN mp, OF h9]
  have h10: "(1::int) \<le> 1 \<and> 1 \<le> total_images ?two \<and>
             extract_from_file (H5File unloadable_tree) (Some 1) =
               Inl (LibraryError ''bad object header'', ?init)"
    using x by simp
  note s10 = read_failures_by_pass
               [where self = ?two and n = 1 and ?h5.0 = "H5File unloadable_tree"
                  and e' = "LibraryError ''bad object header''" and st'' = ?init,
                THEN conjunct2, THEN conjunct2, THEN conjunct2, THEN conjunct2, THEN conjunct2,
                THEN conjunct2, THEN conjunct2, THEN conjunct1, THEN mp, OF h10]
  from 1 2 3 4 5 s6 s7 s8 s9 s10 show ?thesis by blast
qed

text \<open>
  C8 as stated fails in both passes. The counting pass does not skip the array \<open>/u\<close>
  that cannot be read: it counts it, and warns of nothing. A child that cannot be
  loaded aborts the counting pass, which returns 0 although the sibling \<open>/v\<close> is a
  readable image, and makes \<open>extract_images\<close> raise.
\<close>

theorem read_failure_claim_counterexample:
  "scan_file example_extractor (H5File corrupt_tree) =
     (example_extractor\<lparr>total_images := 3\<rparr>, 3, []) \<and>
   scan_file example_extractor (H5File unloadable_tree) =
     (example_extractor\<lparr>total_images := 0\<rparr>, 0,
      [ErrorReading ''example_file.h5'' (LibraryError ''bad object header'')]) \<and>
   extract_from_file (H5File unloadable_tree) (Some 1) =
     Inl (LibraryError ''bad object header'', \<lparr>images = [], warnings = [], reads = []\<rparr>) \<and>
   extract_images (example_extractor\<lparr>total_images := 1\<rparr>) (H5File unloadable_tree) (Some 1) =
     (Inl (LibraryError ''bad object header''), \<lparr>images = [], warnings = [], reads = []\<rparr>,
      example_extractor\<lparr>total_images := 1\<rparr>)"
  by (simp add: scan_file_def count_images_in_file_def extract_from_file_def corrupt_tree_def
        unloadable_tree_def example_extractor_def reached_def extract_images_def)

end
